theory Spec2Isabelle
  imports Main "HOL-Library.Word"
begin

unbundle bit_operations_syntax

section \<open>Data model of \<^verbatim>\<open>consensus/message.go\<close>\<close>

type_synonym byte = "8 word"

text \<open>
  Go errors are values. \<^verbatim>\<open>ErrPubKey\<close> is the package's own error; the other
  constructors stand for the errors of the libraries the file calls. A function that
  returns a Go \<^verbatim>\<open>error\<close> returns an \<open>error option\<close> (\<open>None\<close> is \<^verbatim>\<open>nil\<close>); a
  function that may \<^verbatim>\<open>panic(err)\<close> returns \<open>error + 'a\<close>, with \<open>Inl err\<close> for the
  panic.
\<close>

datatype error = ErrPubKey | ErrKeySize | ErrOther string

definition SizeAxis :: nat where
  "SizeAxis = 32"

definition SignaturePrefix :: string where
  "SignaturePrefix = ''==BDLS CONSENSUS MESSAGE==''"

text \<open>\<^verbatim>\<open>[]byte(s)\<close> for a Go string.\<close>

definition bytes_of_string :: "string \<Rightarrow> byte list" where
  "bytes_of_string s = map (\<lambda>c. of_nat (of_char c)) s"

text \<open>
  The builtin \<^verbatim>\<open>copy(dst, src)\<close> overwrites the first \<open>min (len dst) (len src)\<close>
  elements of \<open>dst\<close>; the value is \<open>dst\<close> afterwards.
\<close>

definition copy_go :: "'a list \<Rightarrow> 'a list \<Rightarrow> 'a list" where
  "copy_go dst src = (let n = min (length dst) (length src) in take n src @ drop n dst)"

subsection \<open>PubKeyAxis\<close>

text \<open>
  \<^verbatim>\<open>type PubKeyAxis [SizeAxis]byte\<close>: a byte list of length 32. The methods on a
  pointer receiver take the array and return it as it is after the call.
\<close>

type_synonym PubKeyAxis = "byte list"

definition is_PubKeyAxis :: "byte list \<Rightarrow> bool" where
  "is_PubKeyAxis t \<longleftrightarrow> length t = SizeAxis"

text \<open>The zero value of the array type, as \<^verbatim>\<open>var X PubKeyAxis\<close> declares it.\<close>

definition zero_PubKeyAxis :: PubKeyAxis where
  "zero_PubKeyAxis = replicate SizeAxis 0"

definition Marshal :: "PubKeyAxis \<Rightarrow> byte list \<times> error option" where
  "Marshal t = (t, None)"

definition Unmarshal :: "PubKeyAxis \<Rightarrow> byte list \<Rightarrow> PubKeyAxis \<times> error option" where
  "Unmarshal t data =
     (if length data > 32 then (t, Some ErrPubKey)
      else let off = 32 - length data
           in (take off t @ copy_go (drop off t) data, None))"

text \<open>Left-padding with zero bytes to 32 bytes, the canonical form of an axis.\<close>

definition left_pad32 :: "byte list \<Rightarrow> byte list" where
  "left_pad32 b = replicate (32 - length b) 0 @ b"

definition MarshalTo :: "PubKeyAxis \<Rightarrow> byte list \<Rightarrow> byte list \<times> nat \<times> error option" where
  "MarshalTo t data = (copy_go data t, SizeAxis, None)"

definition Size :: "PubKeyAxis \<Rightarrow> nat" where
  "Size t = SizeAxis"

subsection \<open>Big integers and keys\<close>

text \<open>
  \<^verbatim>\<open>math/big\<close> is Go's standard library. \<^verbatim>\<open>(*Int).Bytes\<close> returns the absolute value
  as a big-endian byte slice without leading zero bytes (the empty slice for 0);
  \<^verbatim>\<open>(*Int).SetBytes\<close> reads a big-endian unsigned integer.
\<close>

function nat_bytes :: "nat \<Rightarrow> byte list" where
  "nat_bytes n = (if n = 0 then [] else nat_bytes (n div 256) @ [of_nat (n mod 256)])"
  by pat_completeness auto
termination
  by (relation "measure (\<lambda>n. n)") auto

declare nat_bytes.simps [simp del]

definition Bytes :: "int \<Rightarrow> byte list" where
  "Bytes x = nat_bytes (nat \<bar>x\<bar>)"

definition bytes_nat :: "byte list \<Rightarrow> nat" where
  "bytes_nat buf = foldl (\<lambda>acc b. acc * 256 + unat b) 0 buf"

definition SetBytes :: "byte list \<Rightarrow> int" where
  "SetBytes buf = int (bytes_nat buf)"

text \<open>
  \<^verbatim>\<open>ecdsa.PublicKey\<close> and \<^verbatim>\<open>ecdsa.PrivateKey\<close>, with the curve a value of a type
  \<open>'c\<close> the model does not look into.
\<close>

record 'c PublicKey =
  pk_Curve :: 'c
  pk_X :: int
  pk_Y :: int

record 'c PrivateKey =
  priv_PublicKey :: "'c PublicKey"
  priv_D :: int

subsection \<open>coordinate\<close>

text \<open>\<^verbatim>\<open>type coordinate [2 * SizeAxis]byte\<close>: a byte list of length 64.\<close>

type_synonym coordinate = "byte list"

definition zero_coordinate :: coordinate where
  "zero_coordinate = replicate (2 * SizeAxis) 0"

definition newCoordFromPubKey :: "'c PublicKey \<Rightarrow> error + coordinate" where
  "newCoordFromPubKey pubkey =
     (case Unmarshal zero_PubKeyAxis (Bytes (pk_X pubkey)) of
        (_, Some err) \<Rightarrow> Inl err
      | (Xa, None) \<Rightarrow>
          (case Unmarshal zero_PubKeyAxis (Bytes (pk_Y pubkey)) of
             (_, Some err) \<Rightarrow> Inl err
           | (Ya, None) \<Rightarrow>
               (let ret0 = zero_coordinate;
                    ret1 = copy_go (take SizeAxis ret0) Xa @ drop SizeAxis ret0
                in Inr (take SizeAxis ret1 @ copy_go (drop SizeAxis ret1) Ya))))"

text \<open>\<^verbatim>\<open>bytes.Equal\<close> compares two slices byte by byte.\<close>

definition bytes_Equal :: "byte list \<Rightarrow> byte list \<Rightarrow> bool" where
  "bytes_Equal a b \<longleftrightarrow> a = b"

definition coordinate_Equal :: "coordinate \<Rightarrow> PubKeyAxis \<Rightarrow> PubKeyAxis \<Rightarrow> bool" where
  "coordinate_Equal c x1 y1 =
     (if bytes_Equal x1 (take SizeAxis c) \<and> bytes_Equal y1 (drop SizeAxis c) then True
      else False)"

subsection \<open>BLAKE2b\<close>

text \<open>
  Modelled from the spec: the package \<^verbatim>\<open>crypto/blake2b\<close> of the repository is not part of
  the sources at hand. The spec names the hash as the keyless 256-bit variant of BLAKE2b;
  the definitions below are BLAKE2b as RFC 7693 defines it (state \<open>h\<close> of eight 64-bit
  words, compression function \<open>F\<close> of twelve rounds of the mixing function \<open>G\<close>, a byte
  counter \<open>t\<close> and the final-block flag), with the digest size \<open>nn\<close> and the key as
  arguments.
\<close>

definition blake2b_IV :: "64 word list" where
  "blake2b_IV = [0x6a09e667f3bcc908, 0xbb67ae8584caa73b, 0x3c6ef372fe94f82b, 0xa54ff53a5f1d36f1,
                 0x510e527fade682d1, 0x9b05688c2b3e6c1f, 0x1f83d9abfb41bd6b, 0x5be0cd19137e2179]"

definition blake2b_SIGMA :: "nat list list" where
  "blake2b_SIGMA =
    [[0, 1, 2, 3, 4, 5, 6, 7, 8, 9, 10, 11, 12, 13, 14, 15],
     [14, 10, 4, 8, 9, 15, 13, 6, 1, 12, 0, 2, 11, 7, 5, 3],
     [11, 8, 12, 0, 5, 2, 15, 13, 10, 14, 3, 6, 7, 1, 9, 4],
     [7, 9, 3, 1, 13, 12, 11, 14, 2, 6, 5, 10, 4, 0, 15, 8],
     [9, 0, 5, 7, 2, 4, 10, 15, 14, 1, 11, 12, 6, 8, 3, 13],
     [2, 12, 6, 10, 0, 11, 8, 3, 4, 13, 7, 5, 15, 14, 1, 9],
     [12, 5, 1, 15, 14, 13, 4, 10, 0, 7, 6, 3, 9, 2, 8, 11],
     [13, 11, 7, 14, 12, 1, 3, 9, 5, 0, 15, 4, 8, 6, 2, 10],
     [6, 15, 14, 9, 11, 3, 0, 8, 12, 2, 13, 7, 1, 4, 10, 5],
     [10, 2, 8, 4, 7, 6, 1, 5, 15, 11, 9, 14, 3, 12, 13, 0]]"

definition blake2b_G ::
  "64 word list \<Rightarrow> nat \<Rightarrow> nat \<Rightarrow> nat \<Rightarrow> nat \<Rightarrow> 64 word \<Rightarrow> 64 word \<Rightarrow> 64 word list" where
  "blake2b_G v0 a b c d x y =
     (let v1 = v0[a := v0 ! a + v0 ! b + x];
          v2 = v1[d := word_rotr 32 (v1 ! d XOR v1 ! a)];
          v3 = v2[c := v2 ! c + v2 ! d];
          v4 = v3[b := word_rotr 24 (v3 ! b XOR v3 ! c)];
          v5 = v4[a := v4 ! a + v4 ! b + y];
          v6 = v5[d := word_rotr 16 (v5 ! d XOR v5 ! a)];
          v7 = v6[c := v6 ! c + v6 ! d]
      in v7[b := word_rotr 63 (v7 ! b XOR v7 ! c)])"

definition blake2b_round :: "64 word list \<Rightarrow> nat list \<Rightarrow> 64 word list \<Rightarrow> 64 word list" where
  "blake2b_round m s v0 =
     (let v1 = blake2b_G v0 0 4 8 12 (m ! (s ! 0)) (m ! (s ! 1));
          v2 = blake2b_G v1 1 5 9 13 (m ! (s ! 2)) (m ! (s ! 3));
          v3 = blake2b_G v2 2 6 10 14 (m ! (s ! 4)) (m ! (s ! 5));
          v4 = blake2b_G v3 3 7 11 15 (m ! (s ! 6)) (m ! (s ! 7));
          v5 = blake2b_G v4 0 5 10 15 (m ! (s ! 8)) (m ! (s ! 9));
          v6 = blake2b_G v5 1 6 11 12 (m ! (s ! 10)) (m ! (s ! 11));
          v7 = blake2b_G v6 2 7 8 13 (m ! (s ! 12)) (m ! (s ! 13))
      in blake2b_G v7 3 4 9 14 (m ! (s ! 14)) (m ! (s ! 15)))"

definition blake2b_F :: "64 word list \<Rightarrow> 64 word list \<Rightarrow> nat \<Rightarrow> bool \<Rightarrow> 64 word list" where
  "blake2b_F h m t f =
     (let v0 = h @ blake2b_IV;
          v1 = v0[12 := v0 ! 12 XOR of_nat t];
          v2 = v1[13 := v1 ! 13 XOR of_nat (t div 2 ^ 64)];
          v3 = (if f then v2[14 := NOT (v2 ! 14)] else v2);
          v4 = foldl (\<lambda>v i. blake2b_round m (blake2b_SIGMA ! (i mod 10)) v) v3 [0..<12]
      in map (\<lambda>i. h ! i XOR v4 ! i XOR v4 ! (i + 8)) [0..<8])"

definition le_word64 :: "byte list \<Rightarrow> 64 word" where
  "le_word64 bs = foldr (\<lambda>b acc. ucast b OR push_bit 8 acc) bs 0"

definition le_bytes64 :: "64 word \<Rightarrow> byte list" where
  "le_bytes64 w = map (\<lambda>i. ucast (drop_bit (8 * i) w)) [0..<8]"

definition block_words :: "byte list \<Rightarrow> 64 word list" where
  "block_words blk = map (\<lambda>i. le_word64 (take 8 (drop (8 * i) blk))) [0..<16]"

function blake2b_blocks :: "64 word list \<Rightarrow> nat \<Rightarrow> byte list \<Rightarrow> 64 word list" where
  "blake2b_blocks h t d =
     (if length d \<le> 128
      then blake2b_F h (block_words (d @ replicate (128 - length d) 0)) (t + length d) True
      else blake2b_blocks (blake2b_F h (block_words (take 128 d)) (t + 128) False)
             (t + 128) (drop 128 d))"
  by pat_completeness auto
termination
  by (relation "measure (\<lambda>(h, t, d). length d)") auto

declare blake2b_blocks.simps [simp del]

definition blake2b :: "nat \<Rightarrow> byte list \<Rightarrow> byte list \<Rightarrow> byte list" where
  "blake2b nn key d =
     (let kk = length key;
          h0 = blake2b_IV[0 := blake2b_IV ! 0 XOR 0x01010000 XOR push_bit 8 (of_nat kk) XOR of_nat nn];
          input = (if kk = 0 then d else key @ replicate (128 - kk) 0 @ d)
      in take nn (concat (map le_bytes64 (blake2b_blocks h0 0 input))))"

text \<open>
  Modelled from the spec: the \<^verbatim>\<open>hash.Hash\<close> value that \<^verbatim>\<open>blake2b.New256\<close> returns. It
  holds the key and the bytes written so far; \<^verbatim>\<open>Write\<close> appends and never fails,
  \<^verbatim>\<open>Sum(b)\<close> appends the digest of everything written to \<open>b\<close>. \<^verbatim>\<open>New256\<close> refuses a key of
  more than 64 bytes.
\<close>

record hasher =
  h_size :: nat
  h_key :: "byte list"
  h_written :: "byte list"

definition blake2b_New256 :: "byte list \<Rightarrow> error + hasher" where
  "blake2b_New256 key =
     (if length key > 64 then Inl ErrKeySize
      else Inr \<lparr>h_size = 32, h_key = key, h_written = []\<rparr>)"

definition hash_Write :: "hasher \<Rightarrow> byte list \<Rightarrow> hasher \<times> nat \<times> error option" where
  "hash_Write h p = (h\<lparr>h_written := h_written h @ p\<rparr>, length p, None)"

definition hash_Sum :: "hasher \<Rightarrow> byte list \<Rightarrow> byte list" where
  "hash_Sum h b = b @ blake2b (h_size h) (h_key h) (h_written h)"

text \<open>
  \<^verbatim>\<open>binary.Write(w, binary.LittleEndian, v)\<close> for a \<^verbatim>\<open>uint32\<close>: the four bytes
  \<^verbatim>\<open>byte(v), byte(v>>8), byte(v>>16), byte(v>>24)\<close> go to the writer in one \<^verbatim>\<open>Write\<close>, whose
  error is returned.
\<close>

definition le_uint32 :: "32 word \<Rightarrow> byte list" where
  "le_uint32 v = [ucast v, ucast (drop_bit 8 v), ucast (drop_bit 16 v), ucast (drop_bit 24 v)]"

definition binary_Write_uint32 :: "hasher \<Rightarrow> 32 word \<Rightarrow> hasher \<times> error option" where
  "binary_Write_uint32 w v = (case hash_Write w (le_uint32 v) of (w', _, err) \<Rightarrow> (w', err))"

subsection \<open>SignedProto\<close>

text \<open>
  The struct is generated from the protocol description, which is not part of the sources
  at hand: \<^verbatim>\<open>Version\<close> is a \<^verbatim>\<open>uint32\<close> (the spec calls it fixed-width, and
  \<^verbatim>\<open>binary.Write\<close> accepts fixed-width values only), \<^verbatim>\<open>X\<close> and \<^verbatim>\<open>Y\<close> are
  \<^verbatim>\<open>PubKeyAxis\<close>, \<^verbatim>\<open>Message\<close>, \<^verbatim>\<open>R\<close> and \<^verbatim>\<open>S\<close> are byte slices.
\<close>

record SignedProto =
  sp_Version :: "32 word"
  sp_Message :: "byte list"
  sp_X :: PubKeyAxis
  sp_Y :: PubKeyAxis
  sp_R :: "byte list"
  sp_S :: "byte list"

definition Coordiante :: "SignedProto \<Rightarrow> coordinate" where
  "Coordiante sp =
     (let ret0 = zero_coordinate;
          ret1 = copy_go (take SizeAxis ret0) (sp_X sp) @ drop SizeAxis ret0
      in take SizeAxis ret1 @ copy_go (drop SizeAxis ret1) (sp_Y sp))"

text \<open>
  \<^verbatim>\<open>Hash\<close>: every \<^verbatim>\<open>if err != nil { panic(err) }\<close> of the source is a branch. The
  length of the message is converted with \<^verbatim>\<open>uint32(len(sp.Message))\<close>, which keeps the
  low 32 bits.
\<close>

definition Hash :: "SignedProto \<Rightarrow> error + byte list" where
  "Hash sp =
     (case blake2b_New256 [] of
        Inl err \<Rightarrow> Inl err
      | Inr hash0 \<Rightarrow>
     (case hash_Write hash0 (bytes_of_string SignaturePrefix) of
        (_, _, Some err) \<Rightarrow> Inl err
      | (hash1, _, None) \<Rightarrow>
     (case binary_Write_uint32 hash1 (sp_Version sp) of
        (_, Some err) \<Rightarrow> Inl err
      | (hash2, None) \<Rightarrow>
     (case hash_Write hash2 (sp_X sp) of
        (_, _, Some err) \<Rightarrow> Inl err
      | (hash3, _, None) \<Rightarrow>
     (case hash_Write hash3 (sp_Y sp) of
        (_, _, Some err) \<Rightarrow> Inl err
      | (hash4, _, None) \<Rightarrow>
     (case binary_Write_uint32 hash4 (of_nat (length (sp_Message sp))) of
        (_, Some err) \<Rightarrow> Inl err
      | (hash5, None) \<Rightarrow>
     (case hash_Write hash5 (sp_Message sp) of
        (_, _, Some err) \<Rightarrow> Inl err
      | (hash6, _, None) \<Rightarrow> Inr (hash_Sum hash6 []))))))))"

text \<open>
  What \<^verbatim>\<open>Sign\<close> and \<^verbatim>\<open>Verify\<close> take from outside the file: the constant
  \<^verbatim>\<open>ProtocolVersion\<close>, the curve \<^verbatim>\<open>secp256k1.S256()\<close>, \<^verbatim>\<open>proto.Marshal\<close>, and
  \<^verbatim>\<open>ecdsa.Sign\<close> and \<^verbatim>\<open>ecdsa.Verify\<close> of Go's standard library. \<open>'r\<close> is the state of
  \<^verbatim>\<open>rand.Reader\<close>, \<open>'m\<close> the type \<^verbatim>\<open>Message\<close>.
\<close>

record ('m, 'c, 'r) externals =
  ProtocolVersion :: "32 word"
  defaultCurve :: 'c
  proto_Marshal :: "'m \<Rightarrow> error + byte list"
  ecdsa_Sign :: "'r \<Rightarrow> 'c PrivateKey \<Rightarrow> byte list \<Rightarrow> error + int \<times> int"
  ecdsa_Verify :: "'c PublicKey \<Rightarrow> byte list \<Rightarrow> int \<Rightarrow> int \<Rightarrow> bool"

text \<open>\<^verbatim>\<open>Sign\<close> mutates the envelope; the model returns it, or the panic.\<close>

definition Sign ::
  "('m, 'c, 'r) externals \<Rightarrow> 'r \<Rightarrow> SignedProto \<Rightarrow> 'm \<Rightarrow> 'c PrivateKey \<Rightarrow> error + SignedProto" where
  "Sign ext rnd sp m privateKey =
     (case proto_Marshal ext m of
        Inl err \<Rightarrow> Inl err
      | Inr bts \<Rightarrow>
     (let sp1 = sp\<lparr>sp_Version := ProtocolVersion ext, sp_Message := bts\<rparr> in
      case Unmarshal (sp_X sp1) (Bytes (pk_X (priv_PublicKey privateKey))) of
        (_, Some err) \<Rightarrow> Inl err
      | (Xa, None) \<Rightarrow>
     (let sp2 = sp1\<lparr>sp_X := Xa\<rparr> in
      case Unmarshal (sp_Y sp2) (Bytes (pk_Y (priv_PublicKey privateKey))) of
        (_, Some err) \<Rightarrow> Inl err
      | (Ya, None) \<Rightarrow>
     (let sp3 = sp2\<lparr>sp_Y := Ya\<rparr> in
      case Hash sp3 of
        Inl err \<Rightarrow> Inl err
      | Inr hash \<Rightarrow>
     (case ecdsa_Sign ext rnd privateKey hash of
        Inl err \<Rightarrow> Inl err
      | Inr (r, s) \<Rightarrow> Inr (sp3\<lparr>sp_R := Bytes r, sp_S := Bytes s\<rparr>))))))"

definition Verify :: "('m, 'c, 'r) externals \<Rightarrow> SignedProto \<Rightarrow> error + bool" where
  "Verify ext sp =
     (case Hash sp of
        Inl err \<Rightarrow> Inl err
      | Inr hash \<Rightarrow>
          (let pubkey = \<lparr>pk_Curve = defaultCurve ext,
                         pk_X = SetBytes (sp_X sp), pk_Y = SetBytes (sp_Y sp)\<rparr>
           in Inr (ecdsa_Verify ext pubkey hash (SetBytes (sp_R sp)) (SetBytes (sp_S sp)))))"

subsection \<open>Inputs used below\<close>

text \<open>An axis that holds earlier content: every byte is \<open>0xFF\<close>.\<close>

definition stale_axis :: PubKeyAxis where
  "stale_axis = replicate 32 0xFF"

text \<open>
  The key pair of secp256k1 with the private scalar 153. The X coordinate of its public
  point \<open>153 \<cdot> G\<close> is below \<open>2 ^ 248\<close>, so \<^verbatim>\<open>X.Bytes()\<close> has 31 bytes; Y has 32.
\<close>

definition short_X :: int where
  "short_X = 0xe3ae1974566ca06cc516d47e0fb165a674a3dabcfca15e722f0e3450f45889"

definition short_Y :: int where
  "short_Y = 0x2aeabe7e4531510116217f07bf4d07300de97e4874f81f533420a72eeb0bd6a4"

definition short_key :: "'c \<Rightarrow> 'c PrivateKey" where
  "short_key curve =
     \<lparr>priv_PublicKey = \<lparr>pk_Curve = curve, pk_X = short_X, pk_Y = short_Y\<rparr>, priv_D = 153\<rparr>"

text \<open>An envelope that was used before: both axes hold earlier content.\<close>

definition stale_envelope :: SignedProto where
  "stale_envelope =
     \<lparr>sp_Version = 0, sp_Message = [], sp_X = stale_axis, sp_Y = stale_axis, sp_R = [], sp_S = []\<rparr>"

text \<open>
  The curve equation \<open>y\<^sup>2 = x\<^sup>3 + 7\<close> of secp256k1 over the field of
  \<open>2\<^sup>2\<^sup>5\<^sup>6 - 2\<^sup>3\<^sup>2 - 977\<close> elements, to tell which of the points below are public keys.
\<close>

definition secp256k1_P :: int where
  "secp256k1_P = 2 ^ 256 - 2 ^ 32 - 977"

definition on_secp256k1 :: "int \<Rightarrow> int \<Rightarrow> bool" where
  "on_secp256k1 x y \<longleftrightarrow>
     0 \<le> x \<and> x < secp256k1_P \<and> 0 \<le> y \<and> y < secp256k1_P \<and>
     (y * y) mod secp256k1_P = (x * x * x + 7) mod secp256k1_P"

subsection \<open>The digest in the words of the specification\<close>

text \<open>
  The \<open>k\<close>-byte little-endian form of a natural number: byte \<open>i\<close> is
  \<open>n div 256 ^ i\<close> reduced to a byte, so a number of more than \<open>k\<close> bytes is
  represented by its low \<open>k\<close> bytes.
\<close>

definition le_encode :: "nat \<Rightarrow> nat \<Rightarrow> byte list" where
  "le_encode k n = map (\<lambda>i. of_nat (n div 256 ^ i)) [0..<k]"

text \<open>
  What the specification feeds to the hash, in its order: the prefix, the version, the X
  axis, the Y axis, the length of the payload in four bytes, the payload.
\<close>

definition spec_digest_input :: "SignedProto \<Rightarrow> byte list" where
  "spec_digest_input sp =
     bytes_of_string SignaturePrefix @ le_encode 4 (unat (sp_Version sp)) @
     sp_X sp @ sp_Y sp @ le_encode 4 (length (sp_Message sp)) @ sp_Message sp"

subsection \<open>The envelope between the steps of Sign\<close>

text \<open>
  The envelope as \<^verbatim>\<open>Sign\<close> holds it when it calls \<^verbatim>\<open>Hash\<close>: version and message are
  set, and both axes have gone through \<^verbatim>\<open>Unmarshal\<close> on the field the envelope had.
\<close>

definition signed_fields ::
  "('m, 'c, 'r) externals \<Rightarrow> SignedProto \<Rightarrow> byte list \<Rightarrow> 'c PrivateKey \<Rightarrow> SignedProto" where
  "signed_fields ext sp bts privateKey =
     sp\<lparr>sp_Version := ProtocolVersion ext, sp_Message := bts,
        sp_X := fst (Unmarshal (sp_X sp) (Bytes (pk_X (priv_PublicKey privateKey)))),
        sp_Y := fst (Unmarshal (sp_Y sp) (Bytes (pk_Y (priv_PublicKey privateKey))))\<rparr>"

section \<open>The axis codec\<close>

lemma copy_go_exact: "length dst = length src \<Longrightarrow> copy_go dst src = src"
  by (simp add: copy_go_def)

lemma Unmarshal_short:
  assumes "length t = 32" "length data \<le> 32"
  shows "Unmarshal t data = (take (32 - length data) t @ data, None)"
proof -
  have "length (drop (32 - length data) t) = length data"
    using assms by simp
  then have "copy_go (drop (32 - length data) t) data = data"
    by (rule copy_go_exact)
  with assms show ?thesis
    by (simp add: Unmarshal_def Let_def)
qed

lemma Unmarshal_long: "32 < length data \<Longrightarrow> Unmarshal t data = (t, Some ErrPubKey)"
  by (simp add: Unmarshal_def)

lemma Unmarshal_zero:
  "length data \<le> 32 \<Longrightarrow> Unmarshal zero_PubKeyAxis data = (left_pad32 data, None)"
  by (simp add: Unmarshal_short zero_PubKeyAxis_def SizeAxis_def left_pad32_def)

lemma length_left_pad32: "length b \<le> 32 \<Longrightarrow> length (left_pad32 b) = 32"
  by (simp add: left_pad32_def)

text \<open>
  C6. Decoding more than 32 bytes returns the error value \<^verbatim>\<open>ErrPubKey\<close>, whatever the
  receiver holds: the call neither panics (the result is an ordinary return value) nor
  reports success for a shortened input.
\<close>

theorem Unmarshal_overflow_error:
  "32 < length data \<Longrightarrow> snd (Unmarshal t data) = Some ErrPubKey"
  by (simp add: Unmarshal_long)

theorem Unmarshal_overflow_error_witness:
  "32 < length (replicate 33 (7::byte)) \<and>
   snd (Unmarshal zero_PubKeyAxis (replicate 33 7)) = Some ErrPubKey"
  using Unmarshal_overflow_error [of "replicate 33 7" zero_PubKeyAxis] by simp

text \<open>
  C10. When the data has more than 32 bytes, \<^verbatim>\<open>Unmarshal\<close> returns before it writes:
  the receiver is afterwards what it was before the call.
\<close>

theorem Unmarshal_overflow_atomic:
  "32 < length data \<Longrightarrow> fst (Unmarshal t data) = t"
  by (simp add: Unmarshal_long)

theorem Unmarshal_overflow_atomic_witness:
  "32 < length (replicate 40 (1::byte)) \<and>
   fst (Unmarshal stale_axis (replicate 40 1)) = stale_axis"
  using Unmarshal_overflow_atomic [of "replicate 40 1" stale_axis] by simp

text \<open>
  C9. For a receiver \<open>t\<close> of 32 bytes and data of at most 32 bytes, \<^verbatim>\<open>Unmarshal\<close>
  succeeds, the last \<open>length data\<close> bytes of the receiver are the data, and the first
  \<open>32 - length data\<close> bytes are the ones the receiver held before: they are not set to
  zero. The result is the left-zero-padded form exactly when those leading bytes were
  zero before the call.
\<close>

theorem Unmarshal_frame:
  assumes "is_PubKeyAxis t" and "length data \<le> 32"
  shows "snd (Unmarshal t data) = None \<and>
         length (fst (Unmarshal t data)) = 32 \<and>
         drop (32 - length data) (fst (Unmarshal t data)) = data \<and>
         take (32 - length data) (fst (Unmarshal t data)) = take (32 - length data) t \<and>
         (fst (Unmarshal t data) = left_pad32 data \<longleftrightarrow>
            take (32 - length data) t = replicate (32 - length data) 0)"
proof -
  have len: "length t = 32"
    using assms(1) by (simp add: is_PubKeyAxis_def SizeAxis_def)
  have eq: "Unmarshal t data = (take (32 - length data) t @ data, None)"
    using len assms(2) by (rule Unmarshal_short)
  have "length (fst (Unmarshal t data)) = 32"
    using len assms(2) by (simp add: eq)
  moreover have "drop (32 - length data) (fst (Unmarshal t data)) = data"
    using len by (simp add: eq)
  moreover have "take (32 - length data) (fst (Unmarshal t data)) = take (32 - length data) t"
    using len by (simp add: eq)
  moreover have "fst (Unmarshal t data) = left_pad32 data \<longleftrightarrow>
        take (32 - length data) t = replicate (32 - length data) 0"
    by (simp add: eq left_pad32_def)
  ultimately show ?thesis
    by (simp add: eq)
qed

theorem Unmarshal_frame_witness:
  "is_PubKeyAxis stale_axis \<and> length [1::byte, 2] \<le> 32 \<and>
   snd (Unmarshal stale_axis [1, 2]) = None \<and>
   take 30 (fst (Unmarshal stale_axis [1, 2])) = replicate 30 0xFF \<and>
   drop 30 (fst (Unmarshal stale_axis [1, 2])) = [1, 2] \<and>
   fst (Unmarshal stale_axis [1, 2]) \<noteq> left_pad32 [1, 2]"
proof -
  have a: "is_PubKeyAxis stale_axis"
    by (simp add: is_PubKeyAxis_def SizeAxis_def stale_axis_def)
  have b: "length [1::byte, 2] \<le> 32"
    by simp
  have c: "take 30 stale_axis = replicate 30 0xFF"
    by (simp add: stale_axis_def)
  show ?thesis
    using Unmarshal_frame [OF a b] a b by (simp add: c)
qed

lemma Unmarshal_Marshal_zero_receiver:
  "length b \<le> 32 \<Longrightarrow> Marshal (fst (Unmarshal zero_PubKeyAxis b)) = (left_pad32 b, None)"
  by (simp add: Unmarshal_zero Marshal_def)

text \<open>
  C5. Decoding at most 32 bytes and encoding the axis again gives the bytes left-padded
  with zeros when the axis was zero before (\<open>Unmarshal_Marshal_zero_receiver\<close>). On an
  axis that holds earlier content the round trip succeeds with other bytes: decoding the
  single byte \<open>01\<close> into an axis of 32 bytes \<open>FF\<close> and encoding it gives 31 bytes \<open>FF\<close>
  and \<open>01\<close>, where the padded form is 31 bytes \<open>00\<close> and \<open>01\<close>.
\<close>

theorem Unmarshal_Marshal_stale_receiver:
  "length [1::byte] \<le> 32 \<and>
   snd (Unmarshal stale_axis [1]) = None \<and>
   Marshal (fst (Unmarshal stale_axis [1])) = (replicate 31 0xFF @ [1], None) \<and>
   left_pad32 [1] = replicate 31 0 @ [1] \<and>
   fst (Marshal (fst (Unmarshal stale_axis [1]))) \<noteq> left_pad32 [1]"
  by (simp add: Unmarshal_def Marshal_def copy_go_def stale_axis_def left_pad32_def)

section \<open>Big integers\<close>

lemma nat_bytes_0: "nat_bytes 0 = []"
  by (subst nat_bytes.simps) simp

lemma nat_bytes_pos: "0 < n \<Longrightarrow> nat_bytes n = nat_bytes (n div 256) @ [of_nat (n mod 256)]"
  by (subst nat_bytes.simps) simp

lemma length_nat_bytes_le: "n < 256 ^ k \<Longrightarrow> length (nat_bytes n) \<le> k"
proof (induction n arbitrary: k rule: nat_bytes.induct)
  case (1 n)
  show ?case
  proof (cases "n = 0")
    case True
    then show ?thesis by (simp add: nat_bytes_0)
  next
    case False
    then obtain j where k: "k = Suc j"
      using "1.prems" by (cases k) auto
    have "n div 256 < 256 ^ j"
      using "1.prems" k by (simp add: less_mult_imp_div_less mult.commute)
    then have "length (nat_bytes (n div 256)) \<le> j"
      using "1.IH" False by blast
    then show ?thesis
      using False k by (subst nat_bytes.simps) simp
  qed
qed

lemma length_nat_bytes_gt: "256 ^ k \<le> n \<Longrightarrow> k < length (nat_bytes n)"
proof (induction n arbitrary: k rule: nat_bytes.induct)
  case (1 n)
  have n0: "n \<noteq> 0"
    using "1.prems" by (cases "n = 0") auto
  show ?case
  proof (cases k)
    case 0
    then show ?thesis using n0 by (subst nat_bytes.simps) simp
  next
    case (Suc j)
    have "256 ^ j \<le> n div 256"
      using "1.prems" Suc by (simp add: less_eq_div_iff_mult_less_eq mult.commute)
    then have "j < length (nat_bytes (n div 256))"
      using "1.IH" n0 by blast
    then show ?thesis
      using n0 Suc by (subst nat_bytes.simps) simp
  qed
qed

lemma bytes_nat_append: "bytes_nat (xs @ [b]) = bytes_nat xs * 256 + unat b"
  by (simp add: bytes_nat_def)

lemma bytes_nat_nat_bytes: "bytes_nat (nat_bytes n) = n"
proof (induction n rule: nat_bytes.induct)
  case (1 n)
  show ?case
  proof (cases "n = 0")
    case True
    then show ?thesis by (simp add: bytes_nat_def nat_bytes_0)
  next
    case False
    have "unat (of_nat (n mod 256) :: byte) = n mod 256"
      by (simp add: unat_of_nat)
    then show ?thesis
      using False "1.IH" by (subst nat_bytes.simps) (simp add: bytes_nat_append)
  qed
qed

lemma bytes_nat_zeros: "bytes_nat (replicate k 0 @ xs) = bytes_nat xs"
  by (induction k) (simp_all add: bytes_nat_def)

lemma SetBytes_Bytes: "SetBytes (Bytes x) = \<bar>x\<bar>"
  by (simp add: SetBytes_def Bytes_def bytes_nat_nat_bytes)

lemma SetBytes_left_pad32: "SetBytes (left_pad32 b) = SetBytes b"
  by (simp add: SetBytes_def left_pad32_def bytes_nat_zeros)

lemma length_Bytes_le: "\<bar>x\<bar> < 2 ^ 256 \<Longrightarrow> length (Bytes x) \<le> 32"
proof -
  assume "\<bar>x\<bar> < 2 ^ 256"
  then have "nat \<bar>x\<bar> < 256 ^ 32"
    by simp
  then show ?thesis
    unfolding Bytes_def by (rule length_nat_bytes_le)
qed

lemma length_Bytes_gt: "2 ^ 256 \<le> \<bar>x\<bar> \<Longrightarrow> 32 < length (Bytes x)"
proof -
  assume "2 ^ 256 \<le> \<bar>x\<bar>"
  then have "256 ^ 32 \<le> nat \<bar>x\<bar>"
    by simp
  then show ?thesis
    unfolding Bytes_def by (rule length_nat_bytes_gt)
qed

section \<open>Coordinates\<close>

text \<open>
  C8. For a coordinate of 64 bytes and two axes of 32 bytes, \<^verbatim>\<open>Equal\<close> holds exactly
  when the first axis is the first half of the coordinate and the second axis the second
  half, that is, when the coordinate is the two axes one after the other.
\<close>

theorem coordinate_Equal_iff:
  assumes "length c = 64" and "is_PubKeyAxis x1" and "is_PubKeyAxis y1"
  shows "(coordinate_Equal c x1 y1 \<longleftrightarrow> x1 = take 32 c \<and> y1 = drop 32 c) \<and>
         (coordinate_Equal c x1 y1 \<longleftrightarrow> c = x1 @ y1)"
proof -
  have first: "coordinate_Equal c x1 y1 \<longleftrightarrow> x1 = take 32 c \<and> y1 = drop 32 c"
    by (simp add: coordinate_Equal_def bytes_Equal_def SizeAxis_def)
  have "length x1 = 32"
    using assms(2) by (simp add: is_PubKeyAxis_def SizeAxis_def)
  then have "(x1 = take 32 c \<and> y1 = drop 32 c) \<longleftrightarrow> c = x1 @ y1"
    by (metis append_eq_conv_conj append_take_drop_id)
  with first show ?thesis
    by simp
qed

theorem coordinate_Equal_iff_witness:
  "length (replicate 32 (1::byte) @ replicate 32 2) = 64 \<and>
   is_PubKeyAxis (replicate 32 1) \<and> is_PubKeyAxis (replicate 32 2) \<and>
   coordinate_Equal (replicate 32 1 @ replicate 32 2) (replicate 32 1) (replicate 32 2) \<and>
   \<not> coordinate_Equal (replicate 32 1 @ replicate 32 2) (replicate 32 2) (replicate 32 2)"
proof -
  have c: "length (replicate 32 (1::byte) @ replicate 32 2) = 64"
    by simp
  have x: "is_PubKeyAxis (replicate 32 1)" and y: "is_PubKeyAxis (replicate 32 2)"
    by (simp_all add: is_PubKeyAxis_def SizeAxis_def)
  show ?thesis
    using coordinate_Equal_iff [OF c x y] coordinate_Equal_iff [OF c y y] c x y
    by simp
qed

lemma newCoordFromPubKey_copy:
  assumes "length Xa = 32" and "length Ya = 32"
  shows "(let ret0 = zero_coordinate;
              ret1 = copy_go (take SizeAxis ret0) Xa @ drop SizeAxis ret0
          in take SizeAxis ret1 @ copy_go (drop SizeAxis ret1) Ya) = Xa @ Ya"
proof -
  have a: "copy_go (take SizeAxis zero_coordinate) Xa = Xa"
    using assms(1) by (intro copy_go_exact) (simp add: zero_coordinate_def SizeAxis_def)
  have b: "copy_go (drop SizeAxis zero_coordinate) Ya = Ya"
    using assms(2) by (intro copy_go_exact) (simp add: zero_coordinate_def SizeAxis_def)
  have c: "take SizeAxis (Xa @ drop SizeAxis zero_coordinate) = Xa"
    and d: "drop SizeAxis (Xa @ drop SizeAxis zero_coordinate) = drop SizeAxis zero_coordinate"
    using assms(1) by (simp_all add: SizeAxis_def)
  show ?thesis
    by (simp only: Let_def a b c d)
qed

text \<open>
  C7. \<^verbatim>\<open>newCoordFromPubKey\<close> panics with \<^verbatim>\<open>ErrPubKey\<close> when \<^verbatim>\<open>X.Bytes()\<close> or
  \<^verbatim>\<open>Y.Bytes()\<close> has more than 32 bytes; when both have at most 32 it returns the 64
  bytes made of the zero-padded X followed by the zero-padded Y.
\<close>

theorem newCoordFromPubKey_cases:
  "(32 < length (Bytes (pk_X pubkey)) \<or> 32 < length (Bytes (pk_Y pubkey)) \<longrightarrow>
      newCoordFromPubKey pubkey = Inl ErrPubKey) \<and>
   (length (Bytes (pk_X pubkey)) \<le> 32 \<and> length (Bytes (pk_Y pubkey)) \<le> 32 \<longrightarrow>
      newCoordFromPubKey pubkey =
        Inr (left_pad32 (Bytes (pk_X pubkey)) @ left_pad32 (Bytes (pk_Y pubkey))) \<and>
      length (left_pad32 (Bytes (pk_X pubkey)) @ left_pad32 (Bytes (pk_Y pubkey))) = 64)"
proof (intro conjI impI)
  assume "32 < length (Bytes (pk_X pubkey)) \<or> 32 < length (Bytes (pk_Y pubkey))"
  then show "newCoordFromPubKey pubkey = Inl ErrPubKey"
  proof
    assume "32 < length (Bytes (pk_X pubkey))"
    then show ?thesis
      by (simp add: newCoordFromPubKey_def Unmarshal_long)
  next
    assume y: "32 < length (Bytes (pk_Y pubkey))"
    show ?thesis
    proof (cases "32 < length (Bytes (pk_X pubkey))")
      case True
      then show ?thesis
        by (simp add: newCoordFromPubKey_def Unmarshal_long)
    next
      case False
      then have "length (Bytes (pk_X pubkey)) \<le> 32"
        by simp
      then show ?thesis
        using y by (simp add: newCoordFromPubKey_def Unmarshal_long Unmarshal_zero)
    qed
  qed
next
  assume le: "length (Bytes (pk_X pubkey)) \<le> 32 \<and> length (Bytes (pk_Y pubkey)) \<le> 32"
  then have "length (left_pad32 (Bytes (pk_X pubkey))) = 32"
    and "length (left_pad32 (Bytes (pk_Y pubkey))) = 32"
    by (simp_all add: length_left_pad32)
  then show "newCoordFromPubKey pubkey =
      Inr (left_pad32 (Bytes (pk_X pubkey)) @ left_pad32 (Bytes (pk_Y pubkey)))"
    using le newCoordFromPubKey_copy
    by (simp add: newCoordFromPubKey_def Unmarshal_zero del: Let_def)
  show "length (left_pad32 (Bytes (pk_X pubkey)) @ left_pad32 (Bytes (pk_Y pubkey))) = 64"
    using le by (simp add: length_left_pad32)
qed

theorem newCoordFromPubKey_cases_witness:
  "32 < length (Bytes (pk_X \<lparr>pk_Curve = (), pk_X = 2 ^ 256, pk_Y = 1\<rparr>)) \<and>
   newCoordFromPubKey \<lparr>pk_Curve = (), pk_X = 2 ^ 256, pk_Y = 1\<rparr> = Inl ErrPubKey \<and>
   length (Bytes (pk_X (priv_PublicKey (short_key ())))) \<le> 32 \<and>
   length (Bytes (pk_Y (priv_PublicKey (short_key ())))) \<le> 32 \<and>
   newCoordFromPubKey (priv_PublicKey (short_key ())) =
     Inr (left_pad32 (Bytes short_X) @ left_pad32 (Bytes short_Y))"
proof -
  have a: "32 < length (Bytes (pk_X \<lparr>pk_Curve = (), pk_X = 2 ^ 256, pk_Y = 1\<rparr>))"
    by (simp add: length_Bytes_gt)
  have b: "length (Bytes (pk_X (priv_PublicKey (short_key ())))) \<le> 32"
    by (simp add: short_key_def short_X_def length_Bytes_le)
  have c: "length (Bytes (pk_Y (priv_PublicKey (short_key ())))) \<le> 32"
    by (simp add: short_key_def short_Y_def length_Bytes_le)
  have d: "pk_X (priv_PublicKey (short_key ())) = short_X"
    "pk_Y (priv_PublicKey (short_key ())) = short_Y"
    by (simp_all add: short_key_def)
  show ?thesis
    using newCoordFromPubKey_cases [of "\<lparr>pk_Curve = (), pk_X = 2 ^ 256, pk_Y = 1\<rparr>"]
      newCoordFromPubKey_cases [of "priv_PublicKey (short_key ())"] a b c
    by (simp add: d)
qed

section \<open>The digest\<close>

lemma byte_of_uint32: "(ucast (drop_bit (8 * i) (of_nat n :: 32 word)) :: byte) = of_nat (n div 256 ^ i)"
  if "i < 4"
proof -
  have "(256::nat) ^ i = 2 ^ (8 * i)"
    by (simp add: power_mult)
  then have "(of_nat (n div 256 ^ i) :: byte) = of_nat (drop_bit (8 * i) n)"
    by (simp add: drop_bit_eq_div)
  moreover have "(ucast (drop_bit (8 * i) (of_nat n :: 32 word)) :: byte) = of_nat (drop_bit (8 * i) n)"
    using that by (intro bit_word_eqI) (auto simp add: bit_simps)
  ultimately show ?thesis
    by simp
qed

lemma le_uint32_of_nat: "le_uint32 (of_nat n) = le_encode 4 n"
proof -
  have "[0..<4] = [0, 1, 2, 3::nat]"
    by (simp add: upt_rec)
  then show ?thesis
    using byte_of_uint32 [of 0 n] byte_of_uint32 [of 1 n] byte_of_uint32 [of 2 n]
      byte_of_uint32 [of 3 n]
    by (simp add: le_uint32_def le_encode_def)
qed

lemma le_uint32_unat: "le_uint32 v = le_encode 4 (unat v)"
  using le_uint32_of_nat [of "unat v"] by simp

lemma Hash_written:
  "Hash sp = Inr (blake2b 32 [] (bytes_of_string SignaturePrefix @ le_uint32 (sp_Version sp) @
     sp_X sp @ sp_Y sp @ le_uint32 (of_nat (length (sp_Message sp))) @ sp_Message sp))"
  by (simp add: Hash_def blake2b_New256_def hash_Write_def binary_Write_uint32_def hash_Sum_def)

lemma Hash_digest_input: "Hash sp = Inr (blake2b 32 [] (spec_digest_input sp))"
proof -
  have "le_uint32 (of_nat (length (sp_Message sp))) = le_encode 4 (length (sp_Message sp))"
    by (rule le_uint32_of_nat)
  moreover have "le_uint32 (sp_Version sp) = le_encode 4 (unat (sp_Version sp))"
    by (rule le_uint32_unat)
  ultimately show ?thesis
    by (simp only: Hash_written spec_digest_input_def)
qed

lemma length_blake2b_F: "length (blake2b_F h m t f) = 8"
  by (simp add: blake2b_F_def Let_def)

lemma length_blake2b_blocks: "length (blake2b_blocks h t d) = 8"
proof (induction h t d rule: blake2b_blocks.induct)
  case (1 h t d)
  then show ?case
    by (subst blake2b_blocks.simps) (simp add: length_blake2b_F)
qed

lemma length_concat_le_bytes64: "length (concat (map le_bytes64 ws)) = 8 * length ws"
  by (induction ws) (simp_all add: le_bytes64_def)

lemma length_blake2b: "nn \<le> 64 \<Longrightarrow> length (blake2b nn key d) = nn"
  by (simp add: blake2b_def Let_def length_concat_le_bytes64 length_blake2b_blocks)

lemma le_encode_low_bytes: "le_encode 4 n = le_encode 4 (n mod 2 ^ 32)"
proof -
  have "(of_nat (n mod 2 ^ 32) :: 32 word) = of_nat n"
    by (simp add: word_of_nat_eq_iff take_bit_eq_mod)
  then show ?thesis
    using le_uint32_of_nat [of n] le_uint32_of_nat [of "n mod 2 ^ 32"] by simp
qed

text \<open>
  C1. \<^verbatim>\<open>Hash\<close> never panics and returns the keyless BLAKE2b-256 digest, 32 bytes, of
  the prefix, the version in four little-endian bytes, the axis X, the axis Y, the
  length of the message in four little-endian bytes, and the message, in this order. The
  four bytes of the length are those of \<^verbatim>\<open>uint32(len(sp.Message))\<close>, the length modulo
  \<open>2 ^ 32\<close>.
\<close>

theorem Hash_is_blake2b_of_fields:
  "Hash sp =
     Inr (blake2b 32 []
            (bytes_of_string SignaturePrefix @ le_encode 4 (unat (sp_Version sp)) @
             sp_X sp @ sp_Y sp @ le_encode 4 (length (sp_Message sp) mod 2 ^ 32) @
             sp_Message sp)) \<and>
   length (blake2b 32 []
            (bytes_of_string SignaturePrefix @ le_encode 4 (unat (sp_Version sp)) @
             sp_X sp @ sp_Y sp @ le_encode 4 (length (sp_Message sp) mod 2 ^ 32) @
             sp_Message sp)) = 32 \<and>
   le_encode 4 (length (sp_Message sp) mod 2 ^ 32) = le_encode 4 (length (sp_Message sp)) \<and>
   length (le_encode 4 (unat (sp_Version sp))) = 4 \<and>
   length (le_encode 4 (length (sp_Message sp))) = 4"
proof -
  have low: "le_encode 4 (length (sp_Message sp) mod 2 ^ 32) = le_encode 4 (length (sp_Message sp))"
    by (rule le_encode_low_bytes [symmetric])
  have four: "length (le_encode 4 k) = 4" for k
    by (simp add: le_encode_def)
  have "Hash sp = Inr (blake2b 32 [] (spec_digest_input sp))"
    by (rule Hash_digest_input)
  then show ?thesis
    unfolding low by (simp add: spec_digest_input_def length_blake2b four)
qed

section \<open>Verify\<close>

text \<open>
  C4. For every envelope \<^verbatim>\<open>Verify\<close> returns a boolean and never panics: the digest
  exists, and the boolean is what \<^verbatim>\<open>ecdsa.Verify\<close> answers for the public key made of
  the configured curve and the envelope's own X and Y read as unsigned integers, the
  digest, and R and S read as unsigned integers. Nothing looks at X and Y before
  that call.
\<close>

theorem Verify_is_ecdsa_Verify:
  "\<exists>hash. Hash sp = Inr hash \<and>
     Verify ext sp =
       Inr (ecdsa_Verify ext
              \<lparr>pk_Curve = defaultCurve ext, pk_X = SetBytes (sp_X sp), pk_Y = SetBytes (sp_Y sp)\<rparr>
              hash (SetBytes (sp_R sp)) (SetBytes (sp_S sp)))"
  by (simp add: Verify_def Hash_digest_input)

section \<open>Sign\<close>

lemma Sign_returns:
  assumes "proto_Marshal ext m = Inr bts"
    and "length (Bytes (pk_X (priv_PublicKey privateKey))) \<le> 32"
    and "length (Bytes (pk_Y (priv_PublicKey privateKey))) \<le> 32"
  shows "Sign ext rnd sp m privateKey =
     (case ecdsa_Sign ext rnd privateKey
             (blake2b 32 [] (spec_digest_input (signed_fields ext sp bts privateKey))) of
        Inl err \<Rightarrow> Inl err
      | Inr (r, s) \<Rightarrow>
          Inr ((signed_fields ext sp bts privateKey)\<lparr>sp_R := Bytes r, sp_S := Bytes s\<rparr>))"
proof -
  have x: "Unmarshal (sp_X sp) (Bytes (pk_X (priv_PublicKey privateKey))) =
      (fst (Unmarshal (sp_X sp) (Bytes (pk_X (priv_PublicKey privateKey)))), None)"
    using assms(2) by (simp add: Unmarshal_def Let_def)
  have y: "Unmarshal (sp_Y sp) (Bytes (pk_Y (priv_PublicKey privateKey))) =
      (fst (Unmarshal (sp_Y sp) (Bytes (pk_Y (priv_PublicKey privateKey)))), None)"
    using assms(3) by (simp add: Unmarshal_def Let_def)
  show ?thesis
    unfolding Sign_def signed_fields_def
    by (simp add: assms(1) Let_def Hash_digest_input, subst x, simp, subst y, simp)
qed

lemma Sign_panics_Marshal: "proto_Marshal ext m = Inl err \<Longrightarrow> Sign ext rnd sp m privateKey = Inl err"
  by (simp add: Sign_def)

lemma Sign_panics_axis:
  assumes "proto_Marshal ext m = Inr bts"
    and "32 < length (Bytes (pk_X (priv_PublicKey privateKey))) \<or>
         32 < length (Bytes (pk_Y (priv_PublicKey privateKey)))"
  shows "Sign ext rnd sp m privateKey = Inl ErrPubKey"
proof (cases "32 < length (Bytes (pk_X (priv_PublicKey privateKey)))")
  case True
  then show ?thesis
    by (simp add: Sign_def assms(1) Unmarshal_long)
next
  case False
  then have x: "Unmarshal (sp_X sp) (Bytes (pk_X (priv_PublicKey privateKey))) =
      (fst (Unmarshal (sp_X sp) (Bytes (pk_X (priv_PublicKey privateKey)))), None)"
    by (simp add: Unmarshal_def Let_def)
  from False assms(2) have "32 < length (Bytes (pk_Y (priv_PublicKey privateKey)))"
    by simp
  then show ?thesis
    unfolding Sign_def
    by (simp add: assms(1) Let_def, subst x, simp add: Unmarshal_long)
qed

lemma signed_fields_fresh:
  assumes "sp_X sp = zero_PubKeyAxis" and "sp_Y sp = zero_PubKeyAxis"
    and "length (Bytes (pk_X (priv_PublicKey privateKey))) \<le> 32"
    and "length (Bytes (pk_Y (priv_PublicKey privateKey))) \<le> 32"
  shows "signed_fields ext sp bts privateKey =
     sp\<lparr>sp_Version := ProtocolVersion ext, sp_Message := bts,
        sp_X := left_pad32 (Bytes (pk_X (priv_PublicKey privateKey))),
        sp_Y := left_pad32 (Bytes (pk_Y (priv_PublicKey privateKey)))\<rparr>"
  using assms by (simp add: signed_fields_def Unmarshal_zero)

lemma Sign_Verify_fresh:
  fixes privateKey :: "'c PrivateKey"
  defines "pub \<equiv> priv_PublicKey privateKey"
  assumes marshal: "proto_Marshal ext m = Inr bts"
    and fresh: "sp_X sp = zero_PubKeyAxis" "sp_Y sp = zero_PubKeyAxis"
    and range: "0 \<le> pk_X pub" "pk_X pub < 2 ^ 256" "0 \<le> pk_Y pub" "pk_Y pub < 2 ^ 256"
    and curve: "pk_Curve pub = defaultCurve ext"
    and sign: "ecdsa_Sign ext rnd privateKey
                 (blake2b 32 [] (spec_digest_input (signed_fields ext sp bts privateKey))) = Inr (r, s)"
    and ecdsa: "0 \<le> r" "0 \<le> s"
      "ecdsa_Verify ext pub (blake2b 32 [] (spec_digest_input (signed_fields ext sp bts privateKey))) r s"
  shows "\<exists>sp'. Sign ext rnd sp m privateKey = Inr sp' \<and> Verify ext sp' = Inr True"
proof -
  let ?sf = "signed_fields ext sp bts privateKey"
  have lx: "length (Bytes (pk_X (priv_PublicKey privateKey))) \<le> 32"
    and ly: "length (Bytes (pk_Y (priv_PublicKey privateKey))) \<le> 32"
    using range by (simp_all add: pub_def length_Bytes_le)
  have S: "Sign ext rnd sp m privateKey = Inr (?sf\<lparr>sp_R := Bytes r, sp_S := Bytes s\<rparr>)"
    using Sign_returns [OF marshal lx ly, of rnd sp] sign by simp
  have sf: "sp_X ?sf = left_pad32 (Bytes (pk_X pub))" "sp_Y ?sf = left_pad32 (Bytes (pk_Y pub))"
    using signed_fields_fresh [OF fresh lx ly, of ext bts] by (simp_all add: pub_def)
  have key: "\<lparr>pk_Curve = defaultCurve ext, pk_X = SetBytes (sp_X ?sf), pk_Y = SetBytes (sp_Y ?sf)\<rparr> = pub"
    using range curve by (cases pub) (simp add: sf SetBytes_left_pad32 SetBytes_Bytes)
  have "spec_digest_input (?sf\<lparr>sp_R := Bytes r, sp_S := Bytes s\<rparr>) = spec_digest_input ?sf"
    by (simp add: spec_digest_input_def)
  then have "Verify ext (?sf\<lparr>sp_R := Bytes r, sp_S := Bytes s\<rparr>) = Inr True"
    using ecdsa by (simp add: Verify_def Hash_digest_input key SetBytes_Bytes)
  with S show ?thesis
    by blast
qed

subsection \<open>Sign on an envelope that holds earlier content\<close>

lemma mod_by_quotient:
  fixes a p q r :: int
  assumes "a = q * p + r" and "0 \<le> r" and "r < p"
  shows "a mod p = r"
  using assms by simp

lemma short_Y_square:
  "(short_Y * short_Y) mod secp256k1_P = 27047858074594675300848042592290547854050795248792387858393823315245261673124"
proof (rule mod_by_quotient)
  show "short_Y * short_Y = 3254295968673310919305342475179602927506240060236939066845979822471681157460 * secp256k1_P + 27047858074594675300848042592290547854050795248792387858393823315245261673124"
    by (simp add: short_Y_def secp256k1_P_def)
qed (simp_all add: secp256k1_P_def)

lemma short_X_cube:
  "(short_X * short_X * short_X + 7) mod secp256k1_P = 27047858074594675300848042592290547854050795248792387858393823315245261673124"
proof (rule mod_by_quotient)
  show "short_X * short_X * short_X + 7 = 562202885984905772216105789947072778266133824336178089174111839580342404554888769529714099622891497583176854185443304894909731462079197776878784260 * secp256k1_P + 27047858074594675300848042592290547854050795248792387858393823315245261673124"
    by (simp add: short_X_def secp256k1_P_def)
qed (simp_all add: secp256k1_P_def)

lemma stale_X_cube:
  "((255 * 2 ^ 248 + short_X) * (255 * 2 ^ 248 + short_X) * (255 * 2 ^ 248 + short_X) + 7)
     mod secp256k1_P = 86407237768573878608800654484350772561617642683115611328939282819728635306111"
proof (rule mod_by_quotient)
  show "(255 * 2 ^ 248 + short_X) * (255 * 2 ^ 248 + short_X) * (255 * 2 ^ 248 + short_X) + 7 =
      13390433782416168891602653398033233026055262829436250119294118989162517126990412800901774174132675073714163303918874491922664123363273959204382126277102831 * secp256k1_P + 86407237768573878608800654484350772561617642683115611328939282819728635306111"
    by (simp add: short_X_def secp256k1_P_def)
qed (simp_all add: secp256k1_P_def)

lemma short_key_on_curve: "on_secp256k1 short_X short_Y"
  unfolding on_secp256k1_def short_Y_square short_X_cube
  by (simp add: secp256k1_P_def short_X_def short_Y_def)

lemma stale_point_off_curve: "\<not> on_secp256k1 (255 * 2 ^ 248 + short_X) short_Y"
  unfolding on_secp256k1_def short_Y_square stale_X_cube
  by simp

lemma bytes_nat_Cons: "bytes_nat (b # xs) = unat b * 256 ^ length xs + bytes_nat xs"
proof (induction xs rule: rev_induct)
  case Nil
  then show ?case by (simp add: bytes_nat_def)
next
  case (snoc x xs)
  have "bytes_nat (b # xs @ [x]) = bytes_nat (b # xs) * 256 + unat x"
    using bytes_nat_append [of "b # xs" x] by simp
  then show ?case
    by (simp add: snoc.IH bytes_nat_append algebra_simps)
qed

lemma length_Bytes_short_X: "length (Bytes short_X) = 31"
proof -
  have "nat \<bar>short_X\<bar> < 256 ^ 31" and "256 ^ 30 \<le> nat \<bar>short_X\<bar>"
    by (simp_all add: short_X_def)
  then have "length (nat_bytes (nat \<bar>short_X\<bar>)) \<le> 31"
    and "30 < length (nat_bytes (nat \<bar>short_X\<bar>))"
    by (simp_all add: length_nat_bytes_le length_nat_bytes_gt)
  then show ?thesis
    by (simp add: Bytes_def)
qed

lemma length_Bytes_short_Y: "length (Bytes short_Y) = 32"
proof -
  have "nat \<bar>short_Y\<bar> < 256 ^ 32" and "256 ^ 31 \<le> nat \<bar>short_Y\<bar>"
    by (simp_all add: short_Y_def)
  then have "length (nat_bytes (nat \<bar>short_Y\<bar>)) \<le> 32"
    and "31 < length (nat_bytes (nat \<bar>short_Y\<bar>))"
    by (simp_all add: length_nat_bytes_le length_nat_bytes_gt)
  then show ?thesis
    by (simp add: Bytes_def)
qed

lemma short_key_sel:
  "pk_X (priv_PublicKey (short_key c)) = short_X"
  "pk_Y (priv_PublicKey (short_key c)) = short_Y"
  by (simp_all add: short_key_def)

lemma stale_signed_X:
  "sp_X (signed_fields ext stale_envelope bts (short_key c)) = 0xFF # Bytes short_X"
  by (simp add: signed_fields_def stale_envelope_def short_key_def Unmarshal_short
      length_Bytes_short_X stale_axis_def)

lemma stale_signed_Y:
  "sp_Y (signed_fields ext stale_envelope bts (short_key c)) = Bytes short_Y"
  by (simp add: signed_fields_def stale_envelope_def short_key_def Unmarshal_short
      length_Bytes_short_Y stale_axis_def)

lemma Sign_stale_short:
  "Sign ext rnd stale_envelope m (short_key c) =
     (case proto_Marshal ext m of
        Inl err \<Rightarrow> Inl err
      | Inr bts \<Rightarrow>
          (case ecdsa_Sign ext rnd (short_key c)
                  (blake2b 32 [] (spec_digest_input (signed_fields ext stale_envelope bts (short_key c)))) of
             Inl err \<Rightarrow> Inl err
           | Inr (r, s) \<Rightarrow>
               Inr ((signed_fields ext stale_envelope bts (short_key c))
                      \<lparr>sp_R := Bytes r, sp_S := Bytes s\<rparr>)))"
proof (cases "proto_Marshal ext m")
  case (Inl err)
  then show ?thesis
    by (simp add: Sign_panics_Marshal)
next
  case (Inr bts)
  have "length (Bytes (pk_X (priv_PublicKey (short_key c)))) \<le> 32"
    and "length (Bytes (pk_Y (priv_PublicKey (short_key c)))) \<le> 32"
    by (simp_all add: short_key_def length_Bytes_short_X length_Bytes_short_Y)
  with Inr show ?thesis
    by (simp add: Sign_returns)
qed

lemma stale_signed_fields:
  "signed_fields ext stale_envelope bts (short_key c) =
     \<lparr>sp_Version = ProtocolVersion ext, sp_Message = bts,
      sp_X = 0xFF # Bytes short_X, sp_Y = Bytes short_Y, sp_R = [], sp_S = []\<rparr>"
proof -
  have "signed_fields ext stale_envelope bts (short_key c) =
      \<lparr>sp_Version = ProtocolVersion ext, sp_Message = bts,
       sp_X = sp_X (signed_fields ext stale_envelope bts (short_key c)),
       sp_Y = sp_Y (signed_fields ext stale_envelope bts (short_key c)),
       sp_R = [], sp_S = []\<rparr>"
    by (simp add: signed_fields_def stale_envelope_def)
  then show ?thesis
    by (simp only: stale_signed_X stale_signed_Y)
qed

text \<open>
  C3. \<^verbatim>\<open>Sign\<close> on \<open>stale_envelope\<close> with the key \<open>short_key\<close>: whenever it
  returns, the version is the protocol version, the message is the marshalled payload, R
  and S are the bytes of the two scalars of \<^verbatim>\<open>ecdsa.Sign\<close> over the digest, Y is the 32
  bytes of the key's Y coordinate, and X is the byte \<open>FF\<close> followed by the 31 bytes of the
  key's X coordinate, where the zero-padded encoding of that coordinate starts with the
  byte \<open>00\<close>.
\<close>

theorem Sign_stale_envelope_X:
  "Sign ext rnd stale_envelope m (short_key c) =
     (case proto_Marshal ext m of
        Inl err \<Rightarrow> Inl err
      | Inr bts \<Rightarrow>
          (let sp3 = \<lparr>sp_Version = ProtocolVersion ext, sp_Message = bts,
                      sp_X = 0xFF # Bytes short_X, sp_Y = Bytes short_Y, sp_R = [], sp_S = []\<rparr>
           in case ecdsa_Sign ext rnd (short_key c) (blake2b 32 [] (spec_digest_input sp3)) of
                Inl err \<Rightarrow> Inl err
              | Inr (r, s) \<Rightarrow> Inr (sp3\<lparr>sp_R := Bytes r, sp_S := Bytes s\<rparr>))) \<and>
   length (Bytes short_X) = 31 \<and>
   left_pad32 (Bytes (pk_X (priv_PublicKey (short_key c)))) = 0x00 # Bytes short_X"
  unfolding Sign_stale_short stale_signed_fields Let_def
  by (simp add: left_pad32_def length_Bytes_short_X short_key_sel)

text \<open>
  C2. \<^verbatim>\<open>Sign\<close> on \<open>stale_envelope\<close> with the key \<open>short_key\<close>, then \<^verbatim>\<open>Verify\<close> on
  the envelope: the answer is the one \<^verbatim>\<open>ecdsa.Verify\<close> gives for the signature made
  with \<open>short_key\<close> and a public key whose X is \<open>255 \<cdot> 2 ^ 248 + short_X\<close>. That is not
  the X of the key that signed, and with \<open>short_Y\<close> it is not a point of the curve
  (\<open>stale_point_off_curve\<close>). On an envelope whose axes are zero the public key is the
  signer's (\<open>Sign_Verify_fresh\<close>).
\<close>

theorem Sign_stale_envelope_Verify:
  "(case Sign ext rnd stale_envelope m (short_key c) of
      Inl err \<Rightarrow> Inl err
    | Inr sp' \<Rightarrow> Verify ext sp') =
   (case proto_Marshal ext m of
      Inl err \<Rightarrow> Inl err
    | Inr bts \<Rightarrow>
        (let hash = blake2b 32 []
               (spec_digest_input
                  \<lparr>sp_Version = ProtocolVersion ext, sp_Message = bts,
                   sp_X = 0xFF # Bytes short_X, sp_Y = Bytes short_Y, sp_R = [], sp_S = []\<rparr>)
         in case ecdsa_Sign ext rnd (short_key c) hash of
              Inl err \<Rightarrow> Inl err
            | Inr (r, s) \<Rightarrow>
                Inr (ecdsa_Verify ext
                       \<lparr>pk_Curve = defaultCurve ext, pk_X = 255 * 2 ^ 248 + short_X, pk_Y = short_Y\<rparr>
                       hash \<bar>r\<bar> \<bar>s\<bar>))) \<and>
   priv_PublicKey (short_key c) = \<lparr>pk_Curve = c, pk_X = short_X, pk_Y = short_Y\<rparr> \<and>
   255 * 2 ^ 248 + short_X \<noteq> short_X"
proof -
  let ?sf = "\<lambda>bts. \<lparr>sp_Version = ProtocolVersion ext, sp_Message = bts,
                   sp_X = 0xFF # Bytes short_X, sp_Y = Bytes short_Y, sp_R = [], sp_S = []\<rparr>"
  have X: "SetBytes (0xFF # Bytes short_X) = 255 * 2 ^ 248 + short_X"
    using SetBytes_Bytes [of short_X]
    by (simp add: SetBytes_def bytes_nat_Cons length_Bytes_short_X) (simp add: short_X_def)
  have Y: "\<bar>short_Y\<bar> = short_Y"
    by (simp add: short_Y_def)
  have V: "Verify ext ((?sf bts)\<lparr>sp_R := Bytes r, sp_S := Bytes s\<rparr>) =
      Inr (ecdsa_Verify ext
             \<lparr>pk_Curve = defaultCurve ext, pk_X = 255 * 2 ^ 248 + short_X, pk_Y = short_Y\<rparr>
             (blake2b 32 [] (spec_digest_input (?sf bts))) \<bar>r\<bar> \<bar>s\<bar>)" for bts r s
  proof -
    have "spec_digest_input ((?sf bts)\<lparr>sp_R := Bytes r, sp_S := Bytes s\<rparr>) =
        spec_digest_input (?sf bts)"
      by (simp add: spec_digest_input_def)
    then show ?thesis
      by (simp add: Verify_def Hash_digest_input X Y SetBytes_Bytes)
  qed
  have "(case Sign ext rnd stale_envelope m (short_key c) of
      Inl err \<Rightarrow> Inl err
    | Inr sp' \<Rightarrow> Verify ext sp') =
   (case proto_Marshal ext m of
      Inl err \<Rightarrow> Inl err
    | Inr bts \<Rightarrow>
        (let hash = blake2b 32 [] (spec_digest_input (?sf bts))
         in case ecdsa_Sign ext rnd (short_key c) hash of
              Inl err \<Rightarrow> Inl err
            | Inr (r, s) \<Rightarrow>
                Inr (ecdsa_Verify ext
                       \<lparr>pk_Curve = defaultCurve ext, pk_X = 255 * 2 ^ 248 + short_X, pk_Y = short_Y\<rparr>
                       hash \<bar>r\<bar> \<bar>s\<bar>)))"
    unfolding Sign_stale_short stale_signed_fields
    using V by (simp add: Let_def split: sum.splits prod.splits)
  then show ?thesis
    by (simp add: short_key_def)
qed

end
